theory Spec2Isabelle
  imports Main "HOL-Library.Word"
begin

section \<open>Strings and the functions of the language\<close>

text \<open>
  A JavaScript string is a sequence of 16-bit code units. \<open>utf16\<close> gives the string of a
  string literal of the source; the literals of the source are ASCII, one code unit for
  each character. \<open>includes_s\<close> is \<^verbatim>\<open>String.prototype.includes\<close>: a search for a contiguous
  occurrence, true for the empty needle.
\<close>

type_synonym jsstring = "16 word list"

definition utf16 :: "string \<Rightarrow> jsstring" where
  "utf16 s = map of_char s"

fun startsWith :: "jsstring \<Rightarrow> jsstring \<Rightarrow> bool" where
  "startsWith s [] = True"
| "startsWith [] (y # ys) = False"
| "startsWith (x # xs) (y # ys) = (x = y \<and> startsWith xs ys)"

fun includes_s :: "jsstring \<Rightarrow> jsstring \<Rightarrow> bool" where
  "includes_s [] t = (t = [])"
| "includes_s (c # cs) t = (startsWith (c # cs) t \<or> includes_s cs t)"

text \<open>
  Two functions of the language that the hooks call are parameters of the model, so that
  every theorem below holds whatever they compute: \<^verbatim>\<open>String.prototype.toLowerCase\<close>, and
  the constructor \<^verbatim>\<open>new RegExp(pattern, 'gi')\<close> together with \<^verbatim>\<open>String.prototype.split\<close>.
  \<open>regExp js pattern\<close> is \<open>None\<close> when the constructor throws a SyntaxError on the
  pattern; otherwise it is the function that takes a text to the parts in which the
  regular expression splits it. With capture groups in the pattern a part may be
  \<^verbatim>\<open>undefined\<close> (here \<open>None\<close>).
\<close>

record builtins =
  toLowerCase :: "jsstring \<Rightarrow> jsstring"
  regExp :: "jsstring \<Rightarrow> (jsstring \<Rightarrow> jsstring option list) option"

text \<open>Template literals render a number in decimal.\<close>

definition digit_char :: "nat \<Rightarrow> char" where
  "digit_char d = ''0123456789'' ! d"

fun string_of_nat :: "nat \<Rightarrow> string" where
  "string_of_nat n =
     (if n < 10 then [digit_char n]
      else string_of_nat (n div 10) @ [digit_char (n mod 10)])"

text \<open>A string or a nullable string used as a condition is true when it is present and non-empty.\<close>

definition truthy :: "jsstring option \<Rightarrow> bool" where
  "truthy e = (case e of None \<Rightarrow> False | Some m \<Rightarrow> m \<noteq> [])"

section \<open>Data model\<close>

text \<open>
  \<^verbatim>\<open>interface Suggestion { id: number; name: string }\<close>. A record fetched from the
  endpoint has these two fields and possibly more, so it is any extension of the record.
\<close>

record suggestion =
  id_s :: int
  name :: jsstring

text \<open>
  Reading an array out of range gives \<^verbatim>\<open>undefined\<close> (here \<open>None\<close>); reading a property
  of \<^verbatim>\<open>undefined\<close> throws a TypeError.
\<close>

datatype exn = TypeError | SyntaxError

definition js_index :: "'a list \<Rightarrow> int \<Rightarrow> 'a option" where
  "js_index xs i = (if 0 \<le> i \<and> i < int (length xs) then Some (xs ! nat i) else None)"

text \<open>
  The state of the hook \<^verbatim>\<open>useAutocomplete\<close>: its six \<^verbatim>\<open>useState\<close> cells, and the
  effects on the outside world as logs: \<open>requests\<close> holds the URL of every call of
  \<^verbatim>\<open>fetch\<close> so far, \<open>pending\<close> the URLs of the calls that have not settled yet, \<open>selected\<close>
  the argument of every call of \<^verbatim>\<open>onSelect\<close> so far. \<^verbatim>\<open>useAutocompleteLoadingOnce\<close>
  has the cell \<open>allSuggestions\<close> in addition.
\<close>

record ac_state =
  inputValue :: jsstring
  filteredSuggestions :: "suggestion list"
  highlightedIndex :: int
  showSuggestions :: bool
  loading :: bool
  error :: "jsstring option"
  requests :: "jsstring list"
  pending :: "jsstring list"
  selected :: "jsstring list"

record lo_state = ac_state +
  allSuggestions :: "suggestion list"

definition initial :: "jsstring \<Rightarrow> ac_state" where
  "initial query =
     \<lparr>inputValue = query, filteredSuggestions = [], highlightedIndex = - 1,
      showSuggestions = False, loading = False, error = None,
      requests = [], pending = [], selected = []\<rparr>"

definition initialLO :: "jsstring \<Rightarrow> lo_state" where
  "initialLO query =
     \<lparr>inputValue = query, filteredSuggestions = [], highlightedIndex = - 1,
      showSuggestions = False, loading = False, error = None,
      requests = [], pending = [], selected = [], allSuggestions = []\<rparr>"

section \<open>Fetching\<close>

text \<open>
  What a call of \<^verbatim>\<open>fetch\<close> followed by \<^verbatim>\<open>response.json()\<close> can give: the promise of
  \<^verbatim>\<open>fetch\<close> rejects (\<open>Rejected\<close>, with the exception as \<^verbatim>\<open>${error}\<close> prints it), or
  it gives a response with a status, whose body parses to an array of records or does
  not (\<open>Unparsable\<close>, with the exception as printed).
\<close>

datatype 'u body = Unparsable jsstring | Parsed "'u list"

datatype 'u outcome = Rejected jsstring | Response nat "'u body"

definition ok :: "nat \<Rightarrow> bool" where
  "ok status = (200 \<le> status \<and> status \<le> 299)"

definition users_url :: jsstring where
  "users_url = utf16 ''https://jsonplaceholder.typicode.com/users''"

definition query_url :: "jsstring \<Rightarrow> jsstring" where
  "query_url query = users_url @ utf16 ''?q='' @ query"

definition error_message :: "jsstring \<Rightarrow> jsstring" where
  "error_message e =
     utf16 ''Error fetching suggestions - '' @ e @ utf16 '', please try again later''"

definition http_error :: "nat \<Rightarrow> jsstring" where
  "http_error status = utf16 (''Error: HTTP error! status: '' @ string_of_nat status)"

text \<open>
  \<^verbatim>\<open>fetchFilteredSuggestions\<close> up to its first \<^verbatim>\<open>await\<close> (lines 41 to 45), and from
  there to its end (lines 46 to 63): the \<^verbatim>\<open>try\<close> block gives the thrown exception
  (\<open>Inl\<close>) or the state it has set, the \<^verbatim>\<open>catch\<close> block handles the exception, the
  \<^verbatim>\<open>finally\<close> block runs after both.
\<close>

definition fetchFilteredSuggestions_start :: "jsstring \<Rightarrow> ac_state \<Rightarrow> ac_state" where
  "fetchFilteredSuggestions_start query s =
     s\<lparr>error := None, loading := True,
       requests := requests s @ [query_url query],
       pending := pending s @ [query_url query]\<rparr>"

definition fetchFilteredSuggestions_try ::
  "builtins \<Rightarrow> jsstring \<Rightarrow> ('a suggestion_scheme) outcome \<Rightarrow> ac_state \<Rightarrow> jsstring + ac_state" where
  "fetchFilteredSuggestions_try js query r s =
     (case r of
        Rejected e \<Rightarrow> Inl e
      | Response status b \<Rightarrow>
          if \<not> ok status then Inl (http_error status)
          else (case b of
                  Unparsable e \<Rightarrow> Inl e
                | Parsed data \<Rightarrow>
                    Inr (s\<lparr>filteredSuggestions :=
                             map (\<lambda>user. \<lparr>id_s = id_s user, name = name user\<rparr>)
                               (filter (\<lambda>user. includes_s (toLowerCase js (name user))
                                                 (toLowerCase js query)) data),
                           showSuggestions := True\<rparr>)))"

definition fetchFilteredSuggestions_settle ::
  "builtins \<Rightarrow> jsstring \<Rightarrow> ('a suggestion_scheme) outcome \<Rightarrow> ac_state \<Rightarrow> ac_state" where
  "fetchFilteredSuggestions_settle js query r s =
     (let s' = (case fetchFilteredSuggestions_try js query r s of
                  Inl e \<Rightarrow> s\<lparr>error := Some (error_message e), filteredSuggestions := []\<rparr>
                | Inr s1 \<Rightarrow> s1)
      in s'\<lparr>loading := False\<rparr>)"

text \<open>The same for \<^verbatim>\<open>fetchAllSuggestions\<close>, which the mount effect of the preload hook calls.\<close>

definition fetchAllSuggestions_start :: "lo_state \<Rightarrow> lo_state" where
  "fetchAllSuggestions_start s =
     s\<lparr>error := None, loading := True,
       requests := requests s @ [users_url],
       pending := pending s @ [users_url]\<rparr>"

definition fetchAllSuggestions_try ::
  "('a suggestion_scheme) outcome \<Rightarrow> lo_state \<Rightarrow> jsstring + lo_state" where
  "fetchAllSuggestions_try r s =
     (case r of
        Rejected e \<Rightarrow> Inl e
      | Response status b \<Rightarrow>
          if \<not> ok status then Inl (http_error status)
          else (case b of
                  Unparsable e \<Rightarrow> Inl e
                | Parsed data \<Rightarrow>
                    Inr (s\<lparr>allSuggestions :=
                             map (\<lambda>user. \<lparr>id_s = id_s user, name = name user\<rparr>) data\<rparr>)))"

definition fetchAllSuggestions_settle ::
  "('a suggestion_scheme) outcome \<Rightarrow> lo_state \<Rightarrow> lo_state" where
  "fetchAllSuggestions_settle r s =
     (let s' = (case fetchAllSuggestions_try r s of
                  Inl e \<Rightarrow> s\<lparr>error := Some (error_message e), allSuggestions := []\<rparr>
                | Inr s1 \<Rightarrow> s1)
      in s'\<lparr>loading := False\<rparr>)"

section \<open>Event handlers\<close>

text \<open>\<^verbatim>\<open>handleChange\<close> of the live-query hook, up to the first \<^verbatim>\<open>await\<close> of the fetch it starts.\<close>

definition handleChange :: "jsstring \<Rightarrow> ac_state \<Rightarrow> ac_state" where
  "handleChange userInput s =
     (if inputValue s \<noteq> userInput then
        (let s1 = s\<lparr>inputValue := userInput\<rparr>
         in if userInput \<noteq> [] then fetchFilteredSuggestions_start userInput s1
            else s1\<lparr>filteredSuggestions := [], showSuggestions := False, error := None\<rparr>)
      else s)"

text \<open>\<^verbatim>\<open>handleChange\<close> of the preload hook.\<close>

definition handleChangeLO :: "builtins \<Rightarrow> jsstring \<Rightarrow> lo_state \<Rightarrow> lo_state" where
  "handleChangeLO js userInput s =
     (let s1 = s\<lparr>inputValue := userInput\<rparr>
      in if userInput \<noteq> [] then
           s1\<lparr>filteredSuggestions :=
                filter (\<lambda>sg. includes_s (toLowerCase js (name sg)) (toLowerCase js userInput))
                  (allSuggestions s),
              showSuggestions := True\<rparr>
         else s1\<lparr>filteredSuggestions := [], showSuggestions := False\<rparr>)"

text \<open>
  \<^verbatim>\<open>handleClick\<close> and \<^verbatim>\<open>handleKeyDown\<close> have the same text in both hooks, so each is
  one function on every extension of the state. The argument of \<^verbatim>\<open>handleClick\<close> may be
  \<^verbatim>\<open>undefined\<close>; then the read of \<^verbatim>\<open>suggestion.name\<close>, which comes before every state
  update, throws.
\<close>

definition handleClick ::
  "suggestion option \<Rightarrow> 'a ac_state_scheme \<Rightarrow> exn + 'a ac_state_scheme" where
  "handleClick suggestion s =
     (case suggestion of
        None \<Rightarrow> Inl TypeError
      | Some sg \<Rightarrow>
          Inr (s\<lparr>inputValue := name sg, filteredSuggestions := [],
                 showSuggestions := False, highlightedIndex := - 1, error := None,
                 selected := selected s @ [name sg]\<rparr>))"

definition handleKeyDown ::
  "jsstring \<Rightarrow> 'a ac_state_scheme \<Rightarrow> exn + 'a ac_state_scheme" where
  "handleKeyDown key s =
     (if key = utf16 ''ArrowDown'' \<and>
         highlightedIndex s < int (length (filteredSuggestions s)) - 1 then
        Inr (s\<lparr>highlightedIndex := highlightedIndex s + 1\<rparr>)
      else if key = utf16 ''ArrowUp'' \<and> highlightedIndex s > 0 then
        Inr (s\<lparr>highlightedIndex := highlightedIndex s - 1\<rparr>)
      else if key = utf16 ''Enter'' then
        (if highlightedIndex s \<ge> 0 then
           handleClick (js_index (filteredSuggestions s) (highlightedIndex s)) s
         else if length (filteredSuggestions s) > 0 then
           handleClick (js_index (filteredSuggestions s) 0) s
         else Inr (s\<lparr>showSuggestions := False\<rparr>))
      else Inr s)"

text \<open>
  The \<^verbatim>\<open>mousedown\<close> listener: \<open>mounted\<close> says that \<^verbatim>\<open>suggestionsRef.current\<close> is set,
  \<open>inside\<close> that the list contains the target of the event.
\<close>

definition handleClickOutside :: "bool \<Rightarrow> bool \<Rightarrow> 'a ac_state_scheme \<Rightarrow> 'a ac_state_scheme" where
  "handleClickOutside mounted inside s =
     (if mounted \<and> \<not> inside then s\<lparr>showSuggestions := False\<rparr> else s)"

section \<open>Rendering\<close>

text \<open>
  \<^verbatim>\<open>getHighlightedText\<close> builds a regular expression from the text of the input as it is,
  splits the name with it and marks the parts that are the input up to case. The
  constructor throws a SyntaxError when the pattern is no regular expression, and
  \<^verbatim>\<open>part.toLowerCase()\<close> throws a TypeError on a part that is \<^verbatim>\<open>undefined\<close>.
\<close>

fun markParts :: "builtins \<Rightarrow> jsstring \<Rightarrow> jsstring option list \<Rightarrow> exn + (jsstring \<times> bool) list" where
  "markParts js highlight [] = Inr []"
| "markParts js highlight (part # parts) =
     (case part of
        None \<Rightarrow> Inl TypeError
      | Some p \<Rightarrow>
          (case markParts js highlight parts of
             Inl e \<Rightarrow> Inl e
           | Inr ms \<Rightarrow> Inr ((p, toLowerCase js p = toLowerCase js highlight) # ms)))"

definition getHighlightedText ::
  "builtins \<Rightarrow> jsstring \<Rightarrow> jsstring \<Rightarrow> exn + (jsstring \<times> bool) list" where
  "getHighlightedText js text highlight =
     (case regExp js (utf16 ''('' @ highlight @ utf16 '')'') of
        None \<Rightarrow> Inl SyntaxError
      | Some split \<Rightarrow> markParts js highlight (split text))"

text \<open>
  What \<^verbatim>\<open>renderSuggestions\<close> returns: \<^verbatim>\<open>null\<close> (here \<open>None\<close>) or a list element with the
  loading item, the error item, the no-match item, or one item for each suggestion: the
  suggestion, whether its position is the highlighted index, and its marked parts. An
  exception of \<^verbatim>\<open>getHighlightedText\<close> leaves the renderer.
\<close>

type_synonym item = "suggestion \<times> bool \<times> (jsstring \<times> bool) list"

datatype view = LoadingView | ErrorView jsstring | NoMatchView | ListView "item list"

fun renderItems ::
  "builtins \<Rightarrow> jsstring \<Rightarrow> int \<Rightarrow> nat \<Rightarrow> suggestion list \<Rightarrow> exn + item list" where
  "renderItems js input hi index [] = Inr []"
| "renderItems js input hi index (sg # sgs) =
     (case getHighlightedText js (name sg) input of
        Inl e \<Rightarrow> Inl e
      | Inr parts \<Rightarrow>
          (case renderItems js input hi (Suc index) sgs of
             Inl e \<Rightarrow> Inl e
           | Inr its \<Rightarrow> Inr ((sg, int index = hi, parts) # its)))"

definition renderList :: "builtins \<Rightarrow> 'a ac_state_scheme \<Rightarrow> exn + view option" where
  "renderList js s =
     (if length (filteredSuggestions s) > 0 then
        (case renderItems js (inputValue s) (highlightedIndex s) 0 (filteredSuggestions s) of
           Inl e \<Rightarrow> Inl e
         | Inr its \<Rightarrow> Inr (Some (ListView its)))
      else Inr (Some NoMatchView))"

definition renderSuggestions :: "builtins \<Rightarrow> ac_state \<Rightarrow> exn + view option" where
  "renderSuggestions js s =
     (if loading s then Inr (Some LoadingView)
      else if truthy (error s) then
        Inr (Some (ErrorView (case error s of Some m \<Rightarrow> m | None \<Rightarrow> [])))
      else if showSuggestions s \<and> inputValue s \<noteq> [] then renderList js s
      else Inr None)"

definition renderSuggestionsLO :: "builtins \<Rightarrow> lo_state \<Rightarrow> exn + view option" where
  "renderSuggestionsLO js s =
     (if loading s \<and> inputValue s \<noteq> [] then Inr (Some LoadingView)
      else if truthy (error s) \<and> inputValue s \<noteq> [] then
        Inr (Some (ErrorView (case error s of Some m \<Rightarrow> m | None \<Rightarrow> [])))
      else if showSuggestions s \<and> inputValue s \<noteq> [] then renderList js s
      else Inr None)"

section \<open>The two components as state machines\<close>

text \<open>
  The events of a mounted component: the user changes the text of the input, a pending
  call settles, a key goes down in the input, the user clicks the item at a position of
  the rendered list, the mouse goes down inside or outside the rendered element. Each
  handler runs to its end before the next event, and the component renders the state it
  leaves. An exception that leaves a handler leaves the state as it was, since the
  handler throws before its first update. An exception that leaves the renderer unmounts
  the component: no handler runs any more and no update arrives, so the state stays.
\<close>

datatype 'u event =
  Change jsstring | Settle jsstring "'u outcome" | KeyDown jsstring | Click nat | MouseDown bool

definition keep :: "'s \<Rightarrow> exn + 's \<Rightarrow> 's" where
  "keep s r = (case r of Inl e \<Rightarrow> s | Inr s' \<Rightarrow> s')"

definition clickItem :: "view option \<Rightarrow> nat \<Rightarrow> 'a ac_state_scheme \<Rightarrow> 'a ac_state_scheme" where
  "clickItem v k s =
     (case v of
        Some (ListView its) \<Rightarrow>
          (if k < length its then keep s (handleClick (Some (fst (its ! k))) s) else s)
      | _ \<Rightarrow> s)"

definition step :: "builtins \<Rightarrow> ac_state \<Rightarrow> ('a suggestion_scheme) event \<Rightarrow> ac_state" where
  "step js s ev =
     (case renderSuggestions js s of
        Inl e \<Rightarrow> s
      | Inr v \<Rightarrow>
          (case ev of
             Change userInput \<Rightarrow> handleChange userInput s
           | Settle query r \<Rightarrow>
               if query_url query \<in> set (pending s)
               then fetchFilteredSuggestions_settle js query r
                      (s\<lparr>pending := remove1 (query_url query) (pending s)\<rparr>)
               else s
           | KeyDown key \<Rightarrow> keep s (handleKeyDown key s)
           | Click k \<Rightarrow> clickItem v k s
           | MouseDown inside \<Rightarrow> handleClickOutside (v \<noteq> None) inside s))"

definition run ::
  "builtins \<Rightarrow> ('a suggestion_scheme) event list \<Rightarrow> ac_state \<Rightarrow> ac_state" where
  "run js evs s = foldl (step js) s evs"

text \<open>
  The preload component: its mount effect starts the one call; a \<open>Settle\<close> event settles
  it, whatever query the event names.
\<close>

definition mountLO :: "jsstring \<Rightarrow> lo_state" where
  "mountLO query = fetchAllSuggestions_start (initialLO query)"

definition stepLO :: "builtins \<Rightarrow> lo_state \<Rightarrow> ('a suggestion_scheme) event \<Rightarrow> lo_state" where
  "stepLO js s ev =
     (case renderSuggestionsLO js s of
        Inl e \<Rightarrow> s
      | Inr v \<Rightarrow>
          (case ev of
             Change userInput \<Rightarrow> handleChangeLO js userInput s
           | Settle query r \<Rightarrow>
               if users_url \<in> set (pending s)
               then fetchAllSuggestions_settle r (s\<lparr>pending := remove1 users_url (pending s)\<rparr>)
               else s
           | KeyDown key \<Rightarrow> keep s (handleKeyDown key s)
           | Click k \<Rightarrow> clickItem v k s
           | MouseDown inside \<Rightarrow> handleClickOutside (v \<noteq> None) inside s))"

definition runLO ::
  "builtins \<Rightarrow> ('a suggestion_scheme) event list \<Rightarrow> lo_state \<Rightarrow> lo_state" where
  "runLO js evs s = foldl (stepLO js) s evs"

section \<open>What the specification says, and sample data\<close>

text \<open>
  The specification's words for the filter: a name contains the query as a
  case-insensitive substring when, with the case of both taken away by
  \<^verbatim>\<open>toLowerCase\<close>, the query occurs in the name: the name is some text, then the query,
  then some text.
\<close>

definition ci_substring :: "builtins \<Rightarrow> jsstring \<Rightarrow> jsstring \<Rightarrow> bool" where
  "ci_substring js query n =
     (\<exists>pre post. toLowerCase js n = pre @ toLowerCase js query @ post)"

text \<open>
  Functions for the sample runs, whose strings are made of ASCII letters. \<open>latin1_lower\<close>
  is \<^verbatim>\<open>toLowerCase\<close> on the strings of code units up to 255 (ASCII and Latin-1): it lowers
  A to Z and the capital letters from U+00C0 to U+00DE. \<open>letters_regExp\<close>, on a pattern
  that is a group of ASCII letters, is the split by the occurrences of the letters,
  whatever their case, with the occurrences among the parts. \<open>letters_regExp\<close> refuses
  every other pattern; the sample runs have none but \<open>(m()\<close>, which is no regular
  expression.
\<close>

definition latin1_lower_unit :: "16 word \<Rightarrow> 16 word" where
  "latin1_lower_unit u =
     (if (65 \<le> u \<and> u \<le> 90) \<or> (192 \<le> u \<and> u \<le> 222 \<and> u \<noteq> 215) then u + 32 else u)"

definition latin1_lower :: "jsstring \<Rightarrow> jsstring" where
  "latin1_lower s = map latin1_lower_unit s"

definition is_letter :: "16 word \<Rightarrow> bool" where
  "is_letter u = ((65 \<le> u \<and> u \<le> 90) \<or> (97 \<le> u \<and> u \<le> 122))"

fun split_letters :: "jsstring \<Rightarrow> nat \<Rightarrow> jsstring \<Rightarrow> jsstring \<Rightarrow> jsstring list" where
  "split_letters h skip acc [] = [acc]"
| "split_letters h skip acc (c # cs) =
     (if skip > 0 then split_letters h (skip - 1) acc cs
      else if latin1_lower (take (length h) (c # cs)) = latin1_lower h
      then acc # take (length h) (c # cs) # split_letters h (length h - 1) [] cs
      else split_letters h 0 (acc @ [c]) cs)"

definition letters_regExp :: "jsstring \<Rightarrow> (jsstring \<Rightarrow> jsstring option list) option" where
  "letters_regExp pattern =
     (let h = butlast (tl pattern)
      in if pattern = utf16 ''('' @ h @ utf16 '')'' \<and> h \<noteq> [] \<and> list_all is_letter h
         then Some (\<lambda>text. map Some (split_letters h 0 [] text))
         else None)"

definition sample_js :: builtins where
  "sample_js = \<lparr>toLowerCase = latin1_lower, regExp = letters_regExp\<rparr>"

text \<open>The records of the specification's scenario, one more record, and a successful fetch.\<close>

definition margo :: suggestion where
  "margo = \<lparr>id_s = 1, name = utf16 ''Margo''\<rparr>"

definition mark :: suggestion where
  "mark = \<lparr>id_s = 2, name = utf16 ''Mark''\<rparr>"

definition ervin :: suggestion where
  "ervin = \<lparr>id_s = 3, name = utf16 ''Ervin''\<rparr>"

definition users :: "suggestion outcome" where
  "users = Response 200 (Parsed [margo, mark, ervin])"

text \<open>
  Sequences of events used below. In the preload component a \<open>Settle\<close> event settles the
  one call of the mount effect.
\<close>

definition first_key_events :: "suggestion event list" where
  "first_key_events = [Change (utf16 ''m'')]"

definition xyz_events :: "suggestion event list" where
  "xyz_events = [Change (utf16 ''xyz''), Settle (utf16 ''xyz'') users]"

definition emptied_events :: "suggestion event list" where
  "emptied_events = [Change (utf16 ''m''), Settle (utf16 ''m'') users, Change []]"

definition two_down_events :: "suggestion event list" where
  "two_down_events =
     [Change (utf16 ''m''), Settle (utf16 ''m'') users,
      KeyDown (utf16 ''ArrowDown''), KeyDown (utf16 ''ArrowDown'')]"

definition stale_index_events :: "suggestion event list" where
  "stale_index_events =
     [Change (utf16 ''m''), Settle (utf16 ''m'') users,
      KeyDown (utf16 ''ArrowDown''), KeyDown (utf16 ''ArrowDown''),
      Change (utf16 ''mark''), Settle (utf16 ''mark'') users]"

definition no_match_events :: "suggestion event list" where
  "no_match_events =
     [Change (utf16 ''m''), Settle (utf16 ''m'') users, KeyDown (utf16 ''ArrowDown''),
      Change (utf16 ''mx''), Settle (utf16 ''mx'') users]"

definition late_settle_events :: "suggestion event list" where
  "late_settle_events = [Change (utf16 ''a''), Change [], Settle (utf16 ''a'') users]"

definition preload_stale_events :: "suggestion event list" where
  "preload_stale_events =
     [Settle [] users, Change (utf16 ''m''),
      KeyDown (utf16 ''ArrowDown''), KeyDown (utf16 ''ArrowDown''), Change (utf16 ''mark'')]"

definition open_paren_events :: "suggestion event list" where
  "open_paren_events =
     [Change (utf16 ''m''), Change (utf16 ''m(''), Settle (utf16 ''m('') users,
      Settle (utf16 ''m'') users]"

section \<open>The filter\<close>

lemma startsWith_iff: "startsWith s t \<longleftrightarrow> (\<exists>post. s = t @ post)"
  by (induction s t rule: startsWith.induct) auto

lemma includes_s_iff: "includes_s s t \<longleftrightarrow> (\<exists>pre post. s = pre @ t @ post)"
proof (induction s)
  case Nil
  then show ?case by simp
next
  case (Cons c cs)
  show ?case
  proof
    assume "includes_s (c # cs) t"
    then consider "startsWith (c # cs) t" | "includes_s cs t" by auto
    then show "\<exists>pre post. c # cs = pre @ t @ post"
    proof cases
      case 1
      then obtain post where "c # cs = t @ post" by (auto simp: startsWith_iff)
      then have "c # cs = [] @ t @ post" by simp
      then show ?thesis by blast
    next
      case 2
      then obtain pre post where "cs = pre @ t @ post" using Cons.IH by blast
      then have "c # cs = (c # pre) @ t @ post" by simp
      then show ?thesis by blast
    qed
  next
    assume "\<exists>pre post. c # cs = pre @ t @ post"
    then obtain pre post where eq: "c # cs = pre @ t @ post" by blast
    show "includes_s (c # cs) t"
    proof (cases pre)
      case Nil
      with eq have "startsWith (c # cs) t" by (auto simp: startsWith_iff)
      then show ?thesis by simp
    next
      case (Cons p ps)
      with eq have "cs = ps @ t @ post" by simp
      then have "includes_s cs t" using Cons.IH by blast
      then show ?thesis by simp
    qed
  qed
qed

lemma ci_substring_code:
  "ci_substring js query n = includes_s (toLowerCase js n) (toLowerCase js query)"
  by (simp add: ci_substring_def includes_s_iff)

text \<open>
  When \<^verbatim>\<open>toLowerCase\<close> works code unit by code unit, this is the same as: some contiguous
  piece of the name is the query up to case.
\<close>

lemma ci_substring_pieces:
  assumes "toLowerCase js = map f"
  shows "ci_substring js query n \<longleftrightarrow>
    (\<exists>pre w post. n = pre @ w @ post \<and> toLowerCase js w = toLowerCase js query)"
proof
  assume "ci_substring js query n"
  then obtain pre' post' where "map f n = pre' @ map f query @ post'"
    by (auto simp: ci_substring_def assms)
  then obtain us vs where n1: "n = us @ vs"
      and r: "map f query @ post' = map f vs"
    by (auto simp: map_eq_append_conv)
  from r obtain w post where "vs = w @ post" "map f query = map f w"
    by (auto simp: append_eq_map_conv)
  with n1 show "\<exists>pre w post. n = pre @ w @ post \<and> toLowerCase js w = toLowerCase js query"
    unfolding assms by metis
next
  assume "\<exists>pre w post. n = pre @ w @ post \<and> toLowerCase js w = toLowerCase js query"
  then obtain pre w post where "n = pre @ w @ post" "map f w = map f query"
    by (auto simp: assms)
  then have "map f n = map f pre @ map f query @ map f post"
    by simp
  then show "ci_substring js query n"
    unfolding ci_substring_def assms by blast
qed

lemmas eval_defs =
  utf16_def digit_char_def truthy_def js_index_def ok_def
  users_url_def query_url_def error_message_def http_error_def
  initial_def initialLO_def mountLO_def
  fetchFilteredSuggestions_start_def fetchFilteredSuggestions_try_def
  fetchFilteredSuggestions_settle_def fetchAllSuggestions_start_def
  fetchAllSuggestions_try_def fetchAllSuggestions_settle_def
  handleChange_def handleChangeLO_def handleClick_def handleKeyDown_def
  handleClickOutside_def getHighlightedText_def renderList_def
  renderSuggestions_def renderSuggestionsLO_def
  keep_def clickItem_def step_def stepLO_def run_def runLO_def
  latin1_lower_unit_def latin1_lower_def is_letter_def letters_regExp_def sample_js_def
  margo_def mark_def ervin_def users_def

section \<open>The sample runs\<close>

lemma run_first_key_events:
  "run sample_js first_key_events (initial []) =
     \<lparr>inputValue = utf16 ''m'', filteredSuggestions = [], highlightedIndex = - 1,
      showSuggestions = False, loading = True, error = None,
      requests = [query_url (utf16 ''m'')], pending = [query_url (utf16 ''m'')],
      selected = []\<rparr>"
  by (simp add: first_key_events_def eval_defs)

lemma run_xyz_events:
  "run sample_js xyz_events (initial []) =
     \<lparr>inputValue = utf16 ''xyz'', filteredSuggestions = [], highlightedIndex = - 1,
      showSuggestions = True, loading = False, error = None,
      requests = [query_url (utf16 ''xyz'')], pending = [], selected = []\<rparr>"
  by (simp add: xyz_events_def eval_defs)


lemma runLO_emptied_events:
  "runLO sample_js emptied_events (mountLO []) =
     \<lparr>inputValue = [], filteredSuggestions = [], highlightedIndex = - 1,
      showSuggestions = False, loading = False, error = None,
      requests = [users_url], pending = [], selected = [],
      allSuggestions = [margo, mark, ervin]\<rparr>"
  by (simp add: emptied_events_def eval_defs)

lemma run_two_down_events:
  "run sample_js two_down_events (initial []) =
     \<lparr>inputValue = utf16 ''m'', filteredSuggestions = [margo, mark], highlightedIndex = 1,
      showSuggestions = True, loading = False, error = None,
      requests = [query_url (utf16 ''m'')], pending = [], selected = []\<rparr>"
  by (simp add: two_down_events_def eval_defs)

lemma run_stale_index_events:
  "run sample_js stale_index_events (initial []) =
     \<lparr>inputValue = utf16 ''mark'', filteredSuggestions = [mark], highlightedIndex = 1,
      showSuggestions = True, loading = False, error = None,
      requests = [query_url (utf16 ''m''), query_url (utf16 ''mark'')], pending = [],
      selected = []\<rparr>"
  by (simp add: stale_index_events_def eval_defs)

lemma run_no_match_events:
  "run sample_js no_match_events (initial []) =
     \<lparr>inputValue = utf16 ''mx'', filteredSuggestions = [], highlightedIndex = 0,
      showSuggestions = True, loading = False, error = None,
      requests = [query_url (utf16 ''m''), query_url (utf16 ''mx'')], pending = [],
      selected = []\<rparr>"
  by (simp add: no_match_events_def eval_defs)

lemma run_late_settle_events:
  "run sample_js late_settle_events (initial []) =
     \<lparr>inputValue = [], filteredSuggestions = [margo, mark], highlightedIndex = - 1,
      showSuggestions = True, loading = False, error = None,
      requests = [query_url (utf16 ''a'')], pending = [], selected = []\<rparr>"
  by (simp add: late_settle_events_def eval_defs)

lemma runLO_preload_stale_events:
  "runLO sample_js preload_stale_events (mountLO []) =
     \<lparr>inputValue = utf16 ''mark'', filteredSuggestions = [mark], highlightedIndex = 1,
      showSuggestions = True, loading = False, error = None,
      requests = [users_url], pending = [], selected = [],
      allSuggestions = [margo, mark, ervin]\<rparr>"
  by (simp add: preload_stale_events_def eval_defs)

section \<open>Invariants of the two state machines\<close>

lemma run_invariant:
  fixes evs :: "('a suggestion_scheme) event list"
  assumes "P s" and "\<And>s (e :: ('a suggestion_scheme) event). P s \<Longrightarrow> P (step js s e)"
  shows "P (run js evs s)"
proof -
  have "P s \<Longrightarrow> P (foldl (step js) s evs)" for s
  proof (induction evs arbitrary: s)
    case Nil
    then show ?case by simp
  next
    case (Cons e evs)
    from Cons.prems have "P (step js s e)" by (rule assms(2))
    then have "P (foldl (step js) (step js s e) evs)" by (rule Cons.IH)
    then show ?case by simp
  qed
  with assms(1) show ?thesis by (simp add: run_def)
qed

lemma runLO_invariant:
  fixes evs :: "('a suggestion_scheme) event list"
  assumes "P s" and "\<And>s (e :: ('a suggestion_scheme) event). P s \<Longrightarrow> P (stepLO js s e)"
  shows "P (runLO js evs s)"
proof -
  have "P s \<Longrightarrow> P (foldl (stepLO js) s evs)" for s
  proof (induction evs arbitrary: s)
    case Nil
    then show ?case by simp
  next
    case (Cons e evs)
    from Cons.prems have "P (stepLO js s e)" by (rule assms(2))
    then have "P (foldl (stepLO js) (stepLO js s e) evs)" by (rule Cons.IH)
    then show ?case by simp
  qed
  with assms(1) show ?thesis by (simp add: runLO_def)
qed

lemmas handler_defs =
  step_def stepLO_def
  handleChange_def handleChangeLO_def fetchFilteredSuggestions_start_def
  fetchFilteredSuggestions_settle_def fetchFilteredSuggestions_try_def
  fetchAllSuggestions_settle_def fetchAllSuggestions_try_def
  handleKeyDown_def handleClick_def js_index_def keep_def clickItem_def
  handleClickOutside_def Let_def

lemmas handler_splits =
  sum.splits event.splits outcome.splits body.splits option.splits view.splits if_splits

lemma stepLO_visible:
  assumes "showSuggestions s \<longrightarrow> inputValue s \<noteq> []"
  shows "showSuggestions (stepLO js s e) \<longrightarrow> inputValue (stepLO js s e) \<noteq> []"
  using assms by (auto simp: handler_defs split: handler_splits)

lemma runLO_visible:
  "showSuggestions (runLO js evs (mountLO query)) \<longrightarrow>
   inputValue (runLO js evs (mountLO query)) \<noteq> []"
proof (rule runLO_invariant [where P = "\<lambda>s. showSuggestions s \<longrightarrow> inputValue s \<noteq> []"])
  show "showSuggestions (mountLO query) \<longrightarrow> inputValue (mountLO query) \<noteq> []"
    by (simp add: mountLO_def fetchAllSuggestions_start_def initialLO_def)
qed (rule stepLO_visible)

lemma step_visible:
  assumes "showSuggestions s \<longrightarrow> inputValue s \<noteq> []"
    and "\<not> (\<exists>q r. e = Settle q r \<and> inputValue s = [])"
  shows "showSuggestions (step js s e) \<longrightarrow> inputValue (step js s e) \<noteq> []"
  using assms by (auto simp: handler_defs split: handler_splits)

lemma query_url_inject: "query_url q = query_url q' \<longleftrightarrow> q = q'"
  by (simp add: query_url_def)

lemma step_pending:
  assumes "\<forall>u \<in> set (pending s). \<exists>q. q \<noteq> [] \<and> u = query_url q"
  shows "\<forall>u \<in> set (pending (step js s e)). \<exists>q. q \<noteq> [] \<and> u = query_url q"
proof (cases e)
  case (Settle q r)
  have "set (remove1 (query_url q) (pending s)) \<subseteq> set (pending s)"
    by (rule set_remove1_subset)
  then show ?thesis
    using Settle assms by (auto simp: handler_defs split: handler_splits)
qed (use assms in \<open>auto simp: handler_defs split: handler_splits\<close>)

lemma run_pending:
  "\<forall>u \<in> set (pending (run js evs (initial query))). \<exists>q. q \<noteq> [] \<and> u = query_url q"
proof (rule run_invariant [where P = "\<lambda>s. \<forall>u \<in> set (pending s). \<exists>q. q \<noteq> [] \<and> u = query_url q"])
  show "\<forall>u \<in> set (pending (initial query)). \<exists>q. q \<noteq> [] \<and> u = query_url q"
    by (simp add: initial_def)
qed (rule step_pending)

lemma step_becomes_visible:
  assumes "\<not> showSuggestions s" and "showSuggestions (step js s e)"
  shows "\<exists>q status data. e = Settle q (Response status (Parsed data)) \<and> ok status \<and>
           query_url q \<in> set (pending s)"
  using assms by (auto simp: handler_defs split: handler_splits)

lemma stepLO_becomes_visible:
  assumes "\<not> showSuggestions s" and "showSuggestions (stepLO js s e)"
  shows "\<exists>u. e = Change u \<and> u \<noteq> []"
  using assms by (auto simp: handler_defs split: handler_splits)

lemma stepLO_pending:
  assumes "pending s = [] \<or>
           (pending s = [users_url] \<and> allSuggestions s = [] \<and> filteredSuggestions s = [])"
  shows "pending (stepLO js s e) = [] \<or>
         (pending (stepLO js s e) = [users_url] \<and> allSuggestions (stepLO js s e) = [] \<and>
          filteredSuggestions (stepLO js s e) = [])"
  using assms by (auto simp: handler_defs split: handler_splits)

lemma runLO_pending:
  "pending (runLO js evs (mountLO query)) = [] \<or>
   (pending (runLO js evs (mountLO query)) = [users_url] \<and>
    allSuggestions (runLO js evs (mountLO query)) = [] \<and>
    filteredSuggestions (runLO js evs (mountLO query)) = [])"
proof (rule runLO_invariant [where P = "\<lambda>s. pending s = [] \<or>
           (pending s = [users_url] \<and> allSuggestions s = [] \<and> filteredSuggestions s = [])"])
  show "pending (mountLO query) = [] \<or>
     (pending (mountLO query) = [users_url] \<and> allSuggestions (mountLO query) = [] \<and>
      filteredSuggestions (mountLO query) = [])"
    by (simp add: mountLO_def fetchAllSuggestions_start_def initialLO_def)
qed (rule stepLO_pending)

lemma stepLO_requests: "requests (stepLO js s e) = requests s"
  by (auto simp: handler_defs split: handler_splits)

lemma runLO_requests: "requests (runLO js evs s) = requests s"
  unfolding runLO_def by (induction evs arbitrary: s) (simp_all add: stepLO_requests)

lemma run_open_paren_events:
  "run sample_js open_paren_events (initial []) =
     \<lparr>inputValue = utf16 ''m('', filteredSuggestions = [margo, mark], highlightedIndex = - 1,
      showSuggestions = True, loading = False, error = None,
      requests = [query_url (utf16 ''m''), query_url (utf16 ''m('')], pending = [],
      selected = []\<rparr>"
  by (simp add: open_paren_events_def eval_defs)

section \<open>The claims\<close>



text \<open>
  C2. The highlighted index stays between -1 and n - 1, for n the length of the candidate
  set, and goes back to -1 whenever the candidate set is replaced. The code does not do
  so: \<^verbatim>\<open>fetchFilteredSuggestions\<close> replaces the candidate set and leaves the index. After
  the input \<open>m\<close>, a fetch that gives two candidates and two ArrowDown keys the index is 1;
  after the input \<open>mark\<close> and a fetch that gives one candidate the index is still 1, with
  a candidate set of length 1.
\<close>

theorem stale_index_after_replacement:
  "stale_index_events =
     two_down_events @ [Change (utf16 ''mark''), Settle (utf16 ''mark'') users] \<and>
   filteredSuggestions (run sample_js two_down_events (initial [])) = [margo, mark] \<and>
   highlightedIndex (run sample_js two_down_events (initial [])) = 1 \<and>
   filteredSuggestions (run sample_js stale_index_events (initial [])) = [mark] \<and>
   highlightedIndex (run sample_js stale_index_events (initial [])) = 1 \<and>
   \<not> highlightedIndex (run sample_js stale_index_events (initial [])) \<le>
       int (length (filteredSuggestions (run sample_js stale_index_events (initial [])))) - 1"
  by (simp add: run_stale_index_events run_two_down_events)
    (simp add: stale_index_events_def two_down_events_def)

lemma handleClick_Some:
  "handleClick (Some sg) s =
     Inr (s\<lparr>inputValue := name sg, filteredSuggestions := [], showSuggestions := False,
            highlightedIndex := - 1, error := None, selected := selected s @ [name sg]\<rparr>)"
  by (simp add: handleClick_def)

lemma renderItems_suggestions:
  "renderItems js input hi index sgs = Inr its \<Longrightarrow>
   length its = length sgs \<and>
   (\<forall>k < length sgs. fst (its ! k) = sgs ! k \<and>
      fst (snd (its ! k)) = (int (index + k) = hi))"
proof (induction sgs arbitrary: index its)
  case Nil
  then show ?case by simp
next
  case (Cons sg sgs)
  from Cons.prems obtain parts its' where
    its: "its = (sg, int index = hi, parts) # its'"
    and r: "renderItems js input hi (Suc index) sgs = Inr its'"
    by (auto split: sum.splits)
  from Cons.IH [OF r] its show ?case
    by (auto simp: nth_Cons split: nat.splits)
qed

lemma renderList_items:
  assumes "renderList js s = Inr (Some (ListView its))"
  shows "length its = length (filteredSuggestions s) \<and>
     (\<forall>k < length (filteredSuggestions s). fst (its ! k) = filteredSuggestions s ! k \<and>
        fst (snd (its ! k)) = (int k = highlightedIndex s))"
  using assms renderItems_suggestions [of js "inputValue s" "highlightedIndex s" 0 "filteredSuggestions s" its]
  by (auto simp: renderList_def split: if_splits sum.splits)

text \<open>
  C3. Selecting a suggestion sets the input to its name, empties the candidate set, sets
  the visibility flag to false and the highlighted index to -1, and calls \<^verbatim>\<open>onSelect\<close>
  once, with the name. A selection is a call of \<^verbatim>\<open>handleClick\<close> with the suggestion: by
  Enter with the highlighted index at the suggestion, by Enter with no highlighted index
  for the first suggestion, and by a click on its item in the rendered list.
\<close>

theorem selection_effect:
  "(\<exists>s'. handleClick (Some sg) s = Inr s' \<and>
         inputValue s' = name sg \<and> filteredSuggestions s' = [] \<and>
         \<not> showSuggestions s' \<and> highlightedIndex s' = - 1 \<and>
         selected s' = selected s @ [name sg]) \<and>
   (0 \<le> highlightedIndex s \<and> highlightedIndex s < int (length (filteredSuggestions s)) \<longrightarrow>
      handleKeyDown (utf16 ''Enter'') s =
        handleClick (Some (filteredSuggestions s ! nat (highlightedIndex s))) s) \<and>
   (highlightedIndex s < 0 \<and> filteredSuggestions s \<noteq> [] \<longrightarrow>
      handleKeyDown (utf16 ''Enter'') s = handleClick (Some (filteredSuggestions s ! 0)) s) \<and>
   (renderList js s = Inr (Some (ListView its)) \<and> k < length (filteredSuggestions s) \<longrightarrow>
      Inr (clickItem (Some (ListView its)) k s) =
        handleClick (Some (filteredSuggestions s ! k)) s)"
proof -
  have "Inr (clickItem (Some (ListView its)) k s) =
        handleClick (Some (filteredSuggestions s ! k)) s"
    if r: "renderList js s = Inr (Some (ListView its))" and k: "k < length (filteredSuggestions s)"
  proof -
    from renderList_items [OF r] k
    have "length its = length (filteredSuggestions s)"
      and "fst (its ! k) = filteredSuggestions s ! k"
      by blast+
    then show ?thesis using k
      by (simp add: clickItem_def keep_def handleClick_Some)
  qed
  then show ?thesis
    by (simp add: handleClick_Some handleKeyDown_def js_index_def utf16_def)
qed

lemma render_two_down_events:
  "renderList sample_js (run sample_js two_down_events (initial [])) =
     Inr (Some (ListView
       [(margo, False, [([], False), (utf16 ''M'', True), (utf16 ''argo'', False)]),
        (mark, True, [([], False), (utf16 ''M'', True), (utf16 ''ark'', False)])]))"
  by (simp add: run_two_down_events) (simp add: eval_defs)

theorem selection_effect_witness:
  "handleKeyDown (utf16 ''Enter'') (run sample_js two_down_events (initial [])) =
     Inr \<lparr>inputValue = utf16 ''Mark'', filteredSuggestions = [], highlightedIndex = - 1,
          showSuggestions = False, loading = False, error = None,
          requests = [query_url (utf16 ''m'')], pending = [], selected = [utf16 ''Mark'']\<rparr> \<and>
   handleKeyDown (utf16 ''Enter'')
       ((run sample_js two_down_events (initial []))\<lparr>highlightedIndex := - 1\<rparr>) =
     Inr \<lparr>inputValue = utf16 ''Margo'', filteredSuggestions = [], highlightedIndex = - 1,
          showSuggestions = False, loading = False, error = None,
          requests = [query_url (utf16 ''m'')], pending = [], selected = [utf16 ''Margo'']\<rparr> \<and>
   step sample_js (run sample_js two_down_events (initial [])) (Click 1 :: suggestion event) =
     \<lparr>inputValue = utf16 ''Mark'', filteredSuggestions = [], highlightedIndex = - 1,
      showSuggestions = False, loading = False, error = None,
      requests = [query_url (utf16 ''m'')], pending = [], selected = [utf16 ''Mark'']\<rparr>"
proof -
  let ?s = "run sample_js two_down_events (initial [])"
  obtain its where r: "renderList sample_js ?s = Inr (Some (ListView its))"
    using render_two_down_events by blast
  have "renderSuggestions sample_js ?s = renderList sample_js ?s"
    by (simp add: run_two_down_events renderSuggestions_def truthy_def utf16_def)
  with r have r': "renderSuggestions sample_js ?s = Inr (Some (ListView its))"
    by simp
  have 1: "0 \<le> highlightedIndex ?s \<and> highlightedIndex ?s < int (length (filteredSuggestions ?s))"
    by (simp add: run_two_down_events)
  have 2: "highlightedIndex (?s\<lparr>highlightedIndex := - 1\<rparr>) < 0 \<and>
      filteredSuggestions (?s\<lparr>highlightedIndex := - 1\<rparr>) \<noteq> []"
    by (simp add: run_two_down_events)
  have 3: "1 < length (filteredSuggestions ?s)"
    by (simp add: run_two_down_events)
  from 1 selection_effect [of mark ?s sample_js its 1]
  have a: "handleKeyDown (utf16 ''Enter'') ?s =
      handleClick (Some (filteredSuggestions ?s ! nat (highlightedIndex ?s))) ?s"
    by blast
  from 2 selection_effect [of mark "?s\<lparr>highlightedIndex := - 1\<rparr>" sample_js its 1]
  have b: "handleKeyDown (utf16 ''Enter'') (?s\<lparr>highlightedIndex := - 1\<rparr>) =
      handleClick (Some (filteredSuggestions (?s\<lparr>highlightedIndex := - 1\<rparr>) ! 0))
        (?s\<lparr>highlightedIndex := - 1\<rparr>)"
    by blast
  from 3 r selection_effect [of mark ?s sample_js its 1]
  have c: "Inr (clickItem (Some (ListView its)) 1 ?s) =
      handleClick (Some (filteredSuggestions ?s ! 1)) ?s"
    by blast
  have d: "step sample_js ?s (Click 1 :: suggestion event) = clickItem (Some (ListView its)) 1 ?s"
    by (simp add: step_def r')
  have e: "clickItem (Some (ListView its)) 1 ?s =
     \<lparr>inputValue = utf16 ''Mark'', filteredSuggestions = [], highlightedIndex = - 1,
      showSuggestions = False, loading = False, error = None,
      requests = [query_url (utf16 ''m'')], pending = [], selected = [utf16 ''Mark'']\<rparr>"
    using c by (simp add: run_two_down_events handleClick_def mark_def)
  have a': "handleKeyDown (utf16 ''Enter'') ?s =
     Inr \<lparr>inputValue = utf16 ''Mark'', filteredSuggestions = [], highlightedIndex = - 1,
          showSuggestions = False, loading = False, error = None,
          requests = [query_url (utf16 ''m'')], pending = [], selected = [utf16 ''Mark'']\<rparr>"
    unfolding a by (simp add: run_two_down_events handleClick_def mark_def)
  have b': "handleKeyDown (utf16 ''Enter'') (?s\<lparr>highlightedIndex := - 1\<rparr>) =
     Inr \<lparr>inputValue = utf16 ''Margo'', filteredSuggestions = [], highlightedIndex = - 1,
          showSuggestions = False, loading = False, error = None,
          requests = [query_url (utf16 ''m'')], pending = [], selected = [utf16 ''Margo'']\<rparr>"
    unfolding b by (simp add: run_two_down_events handleClick_def margo_def)
  from a' b' d e show ?thesis by (intro conjI) simp_all
qed

text \<open>
  What \<^verbatim>\<open>handleKeyDown\<close> does with the index inside the candidate set or at -1.
\<close>

lemma handleKeyDown_arrows:
  "handleKeyDown (utf16 ''ArrowDown'') s =
     Inr (if highlightedIndex s < int (length (filteredSuggestions s)) - 1
          then s\<lparr>highlightedIndex := highlightedIndex s + 1\<rparr> else s) \<and>
   handleKeyDown (utf16 ''ArrowUp'') s =
     Inr (if highlightedIndex s > 0 then s\<lparr>highlightedIndex := highlightedIndex s - 1\<rparr> else s)"
  by (simp add: handleKeyDown_def utf16_def)

lemma handleKeyDown_enter_none:
  "highlightedIndex s < 0 \<Longrightarrow> filteredSuggestions s = [] \<Longrightarrow>
   handleKeyDown (utf16 ''Enter'') s = Inr (s\<lparr>showSuggestions := False\<rparr>)"
  by (simp add: handleKeyDown_def utf16_def)

text \<open>
  C4. ArrowDown adds one to the index exactly when it is below n - 1, ArrowUp takes one
  off exactly when it is above 0, Enter selects the suggestion at the index when the index
  is at least 0, selects the first suggestion when the index is below 0 and n > 0, and
  hides the dropdown when n = 0. The code does not do the last for every state: with the
  index 0 and an empty candidate set, which the events below reach with the no-match view
  on the screen, Enter reads the absent element 0 of the candidate set, the handler
  throws, and the dropdown stays.
\<close>

theorem enter_without_match_throws:
  "filteredSuggestions (run sample_js no_match_events (initial [])) = [] \<and>
   renderSuggestions sample_js (run sample_js no_match_events (initial [])) =
     Inr (Some NoMatchView) \<and>
   handleKeyDown (utf16 ''Enter'') (run sample_js no_match_events (initial [])) =
     Inl TypeError \<and>
   showSuggestions
     (step sample_js (run sample_js no_match_events (initial []))
        (KeyDown (utf16 ''Enter'') :: suggestion event))"
  by (simp add: run_no_match_events) (simp add: eval_defs)

lemma renderLO_no_candidates:
  "filteredSuggestions s = [] \<Longrightarrow> \<exists>v. renderSuggestionsLO js s = Inr v"
  by (simp add: renderSuggestionsLO_def renderList_def)

text \<open>
  C5. Whatever the outcome of a fetch, in both hooks, the loading flag is false afterwards.
  Every exception of the \<^verbatim>\<open>try\<close> block is caught there: the error cell holds the message
  made from it and the candidate set is empty (the filtered list in the live-query hook,
  the cached list in the preload hook, where the filtered list is empty too as long as the
  call of the mount effect is pending). A rejected fetch and a response with a status
  outside 200 to 299 are such exceptions.
\<close>

theorem fetch_failure_handled:
  fixes r :: "('a suggestion_scheme) outcome"
    and evs :: "('a suggestion_scheme) event list"
    and b :: "('b suggestion_scheme) body"
  shows
  "loading (fetchFilteredSuggestions_settle js query r s) = False \<and>
   loading (fetchAllSuggestions_settle r t) = False \<and>
   (fetchFilteredSuggestions_try js query r s = Inl e \<longrightarrow>
      error (fetchFilteredSuggestions_settle js query r s) = Some (error_message e) \<and>
      filteredSuggestions (fetchFilteredSuggestions_settle js query r s) = []) \<and>
   (fetchAllSuggestions_try r t = Inl e \<longrightarrow>
      error (fetchAllSuggestions_settle r t) = Some (error_message e) \<and>
      allSuggestions (fetchAllSuggestions_settle r t) = []) \<and>
   (fetchAllSuggestions_try r (runLO js evs (mountLO query0)) = Inl e \<and>
    users_url \<in> set (pending (runLO js evs (mountLO query0))) \<longrightarrow>
      filteredSuggestions (stepLO js (runLO js evs (mountLO query0)) (Settle query r)) = [] \<and>
      allSuggestions (stepLO js (runLO js evs (mountLO query0)) (Settle query r)) = [] \<and>
      error (stepLO js (runLO js evs (mountLO query0)) (Settle query r)) =
        Some (error_message e) \<and>
      \<not> loading (stepLO js (runLO js evs (mountLO query0)) (Settle query r))) \<and>
   fetchFilteredSuggestions_try js query (Rejected x :: ('b suggestion_scheme) outcome) s = Inl x \<and>
   fetchAllSuggestions_try (Rejected x :: ('b suggestion_scheme) outcome) t = Inl x \<and>
   (\<not> ok status \<longrightarrow>
      fetchFilteredSuggestions_try js query (Response status b) s = Inl (http_error status) \<and>
      fetchAllSuggestions_try (Response status b) t = Inl (http_error status))"
proof -
  let ?t = "runLO js evs (mountLO query0)"
  have "filteredSuggestions (stepLO js ?t (Settle query r)) = [] \<and>
      allSuggestions (stepLO js ?t (Settle query r)) = [] \<and>
      error (stepLO js ?t (Settle query r)) = Some (error_message e) \<and>
      \<not> loading (stepLO js ?t (Settle query r))"
    if f: "fetchAllSuggestions_try r ?t = Inl e" and p: "users_url \<in> set (pending ?t)"
  proof -
    from p runLO_pending [of js evs query0]
    have q: "pending ?t = [users_url]" and c: "filteredSuggestions ?t = []"
      by auto
    from c obtain v where v: "renderSuggestionsLO js ?t = Inr v"
      using renderLO_no_candidates by blast
    from f have f': "fetchAllSuggestions_try r (?t\<lparr>pending := []\<rparr>) = Inl e"
      by (auto simp: fetchAllSuggestions_try_def split: outcome.splits body.splits if_splits)
    have "stepLO js ?t (Settle query r) = fetchAllSuggestions_settle r (?t\<lparr>pending := []\<rparr>)"
      by (simp add: stepLO_def v q)
    then show ?thesis using f' c
      by (simp add: fetchAllSuggestions_settle_def)
  qed
  then show ?thesis
    by (simp add: fetchFilteredSuggestions_settle_def fetchAllSuggestions_settle_def
      fetchFilteredSuggestions_try_def fetchAllSuggestions_try_def Let_def
      split: sum.splits)
qed

lemma message_404:
  "error_message (http_error 404) =
     utf16 ''Error fetching suggestions - Error: HTTP error! status: 404, please try again later''"
  by (simp add: error_message_def http_error_def digit_char_def utf16_def)

lemma runLO_first_key_events:
  "runLO sample_js first_key_events (mountLO []) =
     \<lparr>inputValue = utf16 ''m'', filteredSuggestions = [], highlightedIndex = - 1,
      showSuggestions = True, loading = True, error = None,
      requests = [users_url], pending = [users_url], selected = [], allSuggestions = []\<rparr>"
  by (simp add: first_key_events_def eval_defs)

theorem fetch_failure_handled_witness:
  "\<not> ok 404 \<and>
   users_url \<in> set (pending (runLO sample_js first_key_events (mountLO []))) \<and>
   fetchFilteredSuggestions_settle sample_js (utf16 ''m'') (Response 404 (Parsed [margo]))
       (run sample_js first_key_events (initial [])) =
     \<lparr>inputValue = utf16 ''m'', filteredSuggestions = [], highlightedIndex = - 1,
      showSuggestions = False, loading = False,
      error = Some (utf16 ''Error fetching suggestions - Error: HTTP error! status: 404, please try again later''),
      requests = [query_url (utf16 ''m'')], pending = [query_url (utf16 ''m'')],
      selected = []\<rparr> \<and>
   stepLO sample_js (runLO sample_js first_key_events (mountLO []))
       (Settle (utf16 ''m'') (Response 404 (Parsed [margo]))) =
     \<lparr>inputValue = utf16 ''m'', filteredSuggestions = [], highlightedIndex = - 1,
      showSuggestions = True, loading = False,
      error = Some (utf16 ''Error fetching suggestions - Error: HTTP error! status: 404, please try again later''),
      requests = [users_url], pending = [], selected = [], allSuggestions = []\<rparr>"
proof -
  let ?r = "Response 404 (Parsed [margo])"
  let ?s = "run sample_js first_key_events (initial [])"
  let ?t = "runLO sample_js first_key_events (mountLO [])"
  note t = runLO_first_key_events
  have h: "\<not> ok 404" by (simp add: ok_def)
  have p: "users_url \<in> set (pending ?t)" by (simp add: t)
  note f = fetch_failure_handled [of sample_js "utf16 ''m''" ?r ?s ?t "http_error 404"
      first_key_events "[]" "utf16 ''x''" 404 "Parsed [margo]"]
  from f h have 1: "fetchFilteredSuggestions_try sample_js (utf16 ''m'') ?r ?s = Inl (http_error 404)"
    and 2: "fetchAllSuggestions_try ?r ?t = Inl (http_error 404)"
    by blast+
  from f 1 have 3: "error (fetchFilteredSuggestions_settle sample_js (utf16 ''m'') ?r ?s) =
        Some (error_message (http_error 404))"
    and 4: "filteredSuggestions (fetchFilteredSuggestions_settle sample_js (utf16 ''m'') ?r ?s) = []"
    and 5: "loading (fetchFilteredSuggestions_settle sample_js (utf16 ''m'') ?r ?s) = False"
    by blast+
  from f 2 p have 6: "filteredSuggestions (stepLO sample_js ?t (Settle (utf16 ''m'') ?r)) = []"
    and 7: "allSuggestions (stepLO sample_js ?t (Settle (utf16 ''m'') ?r)) = []"
    and 8: "error (stepLO sample_js ?t (Settle (utf16 ''m'') ?r)) =
        Some (error_message (http_error 404))"
    and 9: "\<not> loading (stepLO sample_js ?t (Settle (utf16 ''m'') ?r))"
    by blast+
  have a: "fetchFilteredSuggestions_settle sample_js (utf16 ''m'') ?r ?s =
     \<lparr>inputValue = utf16 ''m'', filteredSuggestions = [], highlightedIndex = - 1,
      showSuggestions = False, loading = False,
      error = Some (error_message (http_error 404)),
      requests = [query_url (utf16 ''m'')], pending = [query_url (utf16 ''m'')],
      selected = []\<rparr>"
    using 3 4 5
    by (simp add: run_first_key_events fetchFilteredSuggestions_settle_def
        fetchFilteredSuggestions_try_def ok_def)
  have v: "renderSuggestionsLO sample_js ?t = Inr (Some LoadingView)"
    by (simp add: t renderSuggestionsLO_def utf16_def)
  have b: "stepLO sample_js ?t (Settle (utf16 ''m'') ?r) =
     \<lparr>inputValue = utf16 ''m'', filteredSuggestions = [], highlightedIndex = - 1,
      showSuggestions = True, loading = False,
      error = Some (error_message (http_error 404)),
      requests = [users_url], pending = [], selected = [], allSuggestions = []\<rparr>"
    using 6 7 8 9
    by (simp add: stepLO_def v) (simp add: t fetchAllSuggestions_settle_def
        fetchAllSuggestions_try_def ok_def)
  from h p a b show ?thesis by (simp add: message_404)
qed

text \<open>
  C6. The preload hook calls \<^verbatim>\<open>fetch\<close> once, in its mount effect, and never again: after
  every sequence of events the log of requests holds that one call. Its \<^verbatim>\<open>handleChange\<close>
  starts no call and leaves none pending; the candidate set it sets is a function of the
  new input and the cached list alone, the case-insensitive substring filter of the
  cached list.
\<close>

theorem preload_single_request:
  "requests (runLO js evs (mountLO query)) = [users_url] \<and>
   requests (handleChangeLO js userInput s) = requests s \<and>
   pending (handleChangeLO js userInput s) = pending s \<and>
   filteredSuggestions (handleChangeLO js userInput s) =
     (if userInput = [] then []
      else filter (\<lambda>sg. ci_substring js userInput (name sg)) (allSuggestions s))"
  by (simp add: runLO_requests mountLO_def fetchAllSuggestions_start_def initialLO_def
      handleChangeLO_def Let_def ci_substring_code)

theorem preload_single_request_witness:
  "requests (runLO sample_js preload_stale_events (mountLO [])) = [users_url] \<and>
   length (filter (\<lambda>e. case e of Change u \<Rightarrow> True | _ \<Rightarrow> False) preload_stale_events) = 2 \<and>
   filteredSuggestions
     (handleChangeLO sample_js (utf16 ''mar'')
        (runLO sample_js preload_stale_events (mountLO []))) = [margo, mark]"
  using preload_single_request [of sample_js preload_stale_events "[]" "utf16 ''mar''"
      "runLO sample_js preload_stale_events (mountLO [])"]
  by (simp add: runLO_preload_stale_events ci_substring_code)
    (simp add: preload_stale_events_def eval_defs)

text \<open>
  C7. A change of the input in the live-query hook calls \<^verbatim>\<open>fetch\<close> exactly when the new
  value differs from the input and is not empty, and then once, with the URL of the new
  value. When the input becomes empty, no call is made, the candidate set is emptied, the
  visibility flag is set to false and the error is cleared. When the value is the input
  already, the state stays as it is.
\<close>

theorem live_change_requests:
  "requests (handleChange userInput s) =
     (if inputValue s \<noteq> userInput \<and> userInput \<noteq> []
      then requests s @ [query_url userInput] else requests s) \<and>
   (inputValue s \<noteq> userInput \<and> userInput = [] \<longrightarrow>
      filteredSuggestions (handleChange userInput s) = [] \<and>
      \<not> showSuggestions (handleChange userInput s) \<and>
      error (handleChange userInput s) = None) \<and>
   (inputValue s = userInput \<longrightarrow> handleChange userInput s = s)"
  by (simp add: handleChange_def fetchFilteredSuggestions_start_def Let_def)

theorem live_change_requests_witness:
  "requests (handleChange (utf16 ''m'') (initial [])) = [query_url (utf16 ''m'')] \<and>
   inputValue (run sample_js xyz_events (initial [])) \<noteq> [] \<and>
   requests (handleChange [] (run sample_js xyz_events (initial []))) =
     requests (run sample_js xyz_events (initial [])) \<and>
   filteredSuggestions (handleChange [] (run sample_js xyz_events (initial []))) = [] \<and>
   \<not> showSuggestions (handleChange [] (run sample_js xyz_events (initial []))) \<and>
   error (handleChange [] (run sample_js xyz_events (initial []))) = None \<and>
   handleChange (utf16 ''xyz'') (run sample_js xyz_events (initial [])) =
     run sample_js xyz_events (initial [])"
  using live_change_requests [of "utf16 ''m''" "initial []"]
    live_change_requests [of "[]" "run sample_js xyz_events (initial [])"]
    live_change_requests [of "utf16 ''xyz''" "run sample_js xyz_events (initial [])"]
  by (simp add: run_xyz_events) (simp add: initial_def utf16_def)







text \<open>
  The renderer can throw. With the input \<open>m(\<close> and a list on the screen, which a late
  fetch brings about, the pattern built from the input is no regular expression, and the
  exception of the constructor leaves \<^verbatim>\<open>renderSuggestions\<close>.
\<close>

lemma render_throws:
  "renderSuggestions sample_js (run sample_js open_paren_events (initial [])) =
     Inl SyntaxError"
  by (simp add: run_open_paren_events) (simp add: eval_defs)




text \<open>
  C9, as stated, fails in the live-query hook: a call that settles after the input has
  been emptied sets the visibility flag to true while the input is empty.
\<close>

theorem visible_with_empty_input:
  "inputValue (run sample_js late_settle_events (initial [])) = [] \<and>
   showSuggestions (run sample_js late_settle_events (initial []))"
  by (simp add: run_late_settle_events)

text \<open>
  C9, amended. In every reachable state of the preload hook the visibility flag is false
  whenever the input is empty. In the live-query hook every event keeps this, except a
  call that settles while the input is empty. The flag goes from false to true only when
  a call for a non-empty query settles with success (live-query hook) or the input
  changes to a non-empty value (preload hook). It is set to false by a mouse-down outside
  the rendered dropdown, by the input becoming empty and by a selection.
\<close>

theorem visibility_flag:
  fixes evs :: "('a suggestion_scheme) event list"
    and evs1 :: "('b suggestion_scheme) event list"
    and e1 :: "('b suggestion_scheme) event"
    and e2 :: "('c suggestion_scheme) event"
    and e3 :: "('d suggestion_scheme) event"
  shows
  "(inputValue (runLO js evs (mountLO query)) = [] \<longrightarrow>
      \<not> showSuggestions (runLO js evs (mountLO query))) \<and>
   ((inputValue s = [] \<longrightarrow> \<not> showSuggestions s) \<and>
    \<not> (\<exists>q r. e3 = Settle q r \<and> inputValue s = []) \<longrightarrow>
      (inputValue (step js s e3) = [] \<longrightarrow> \<not> showSuggestions (step js s e3))) \<and>
   (\<not> showSuggestions (run js evs1 (initial query1)) \<and>
    showSuggestions (step js (run js evs1 (initial query1)) e1) \<longrightarrow>
      (\<exists>q status data. e1 = Settle q (Response status (Parsed data)) \<and> ok status \<and> q \<noteq> [])) \<and>
   (\<not> showSuggestions t \<and> showSuggestions (stepLO js t e2) \<longrightarrow>
      (\<exists>u. e2 = Change u \<and> u \<noteq> [])) \<and>
   (renderSuggestions js s = Inr (Some v) \<longrightarrow>
      \<not> showSuggestions (step js s (MouseDown False :: ('d suggestion_scheme) event))) \<and>
   (renderSuggestionsLO js t = Inr (Some w) \<longrightarrow>
      \<not> showSuggestions (stepLO js t (MouseDown False :: ('c suggestion_scheme) event))) \<and>
   (inputValue s \<noteq> [] \<longrightarrow> \<not> showSuggestions (handleChange [] s)) \<and>
   \<not> showSuggestions (handleChangeLO js [] t) \<and>
   (\<exists>s'. handleClick (Some sg) s = Inr s' \<and> \<not> showSuggestions s')"
proof -
  have a: "inputValue (runLO js evs (mountLO query)) = [] \<longrightarrow>
      \<not> showSuggestions (runLO js evs (mountLO query))"
    using runLO_visible [of js evs query] by blast
  have b: "(inputValue s = [] \<longrightarrow> \<not> showSuggestions s) \<and>
    \<not> (\<exists>q r. e3 = Settle q r \<and> inputValue s = []) \<longrightarrow>
      (inputValue (step js s e3) = [] \<longrightarrow> \<not> showSuggestions (step js s e3))"
    using step_visible [of s e3 js] by blast
  have c: "\<not> showSuggestions (run js evs1 (initial query1)) \<and>
    showSuggestions (step js (run js evs1 (initial query1)) e1) \<longrightarrow>
      (\<exists>q status data. e1 = Settle q (Response status (Parsed data)) \<and> ok status \<and> q \<noteq> [])"
  proof
    assume h: "\<not> showSuggestions (run js evs1 (initial query1)) \<and>
      showSuggestions (step js (run js evs1 (initial query1)) e1)"
    then obtain q status data where e1: "e1 = Settle q (Response status (Parsed data))"
        and "ok status" and p: "query_url q \<in> set (pending (run js evs1 (initial query1)))"
      using step_becomes_visible [of "run js evs1 (initial query1)" js e1] by blast
    from p obtain q' where "q' \<noteq> []" "query_url q = query_url q'"
      using run_pending [of js evs1 query1] by blast
    then have "q \<noteq> []" by (simp add: query_url_inject)
    with e1 \<open>ok status\<close> show "\<exists>q status data. e1 = Settle q (Response status (Parsed data)) \<and>
        ok status \<and> q \<noteq> []"
      by blast
  qed
  have d: "\<not> showSuggestions t \<and> showSuggestions (stepLO js t e2) \<longrightarrow>
      (\<exists>u. e2 = Change u \<and> u \<noteq> [])"
    using stepLO_becomes_visible [of t js e2] by blast
  have e: "(renderSuggestions js s = Inr (Some v) \<longrightarrow>
      \<not> showSuggestions (step js s (MouseDown False :: ('d suggestion_scheme) event))) \<and>
   (renderSuggestionsLO js t = Inr (Some w) \<longrightarrow>
      \<not> showSuggestions (stepLO js t (MouseDown False :: ('c suggestion_scheme) event))) \<and>
   (inputValue s \<noteq> [] \<longrightarrow> \<not> showSuggestions (handleChange [] s)) \<and>
   \<not> showSuggestions (handleChangeLO js [] t) \<and>
   (\<exists>s'. handleClick (Some sg) s = Inr s' \<and> \<not> showSuggestions s')"
    by (auto simp: step_def stepLO_def handleClickOutside_def handleChange_def
        handleChangeLO_def handleClick_def)
  from a b c d e show ?thesis by blast
qed

theorem visibility_flag_witness:
  "inputValue (runLO sample_js emptied_events (mountLO [])) = [] \<and>
   \<not> showSuggestions (runLO sample_js emptied_events (mountLO [])) \<and>
   inputValue (run sample_js xyz_events (initial [])) \<noteq> [] \<and>
   renderSuggestions sample_js (run sample_js xyz_events (initial [])) = Inr (Some NoMatchView) \<and>
   \<not> showSuggestions
       (step sample_js (run sample_js xyz_events (initial [])) (Change [] :: suggestion event)) \<and>
   \<not> showSuggestions
       (step sample_js (run sample_js xyz_events (initial []))
          (MouseDown False :: suggestion event)) \<and>
   \<not> showSuggestions (run sample_js first_key_events (initial [])) \<and>
   showSuggestions
     (step sample_js (run sample_js first_key_events (initial [])) (Settle (utf16 ''m'') users)) \<and>
   \<not> showSuggestions (mountLO (utf16 ''m'')) \<and>
   renderSuggestionsLO sample_js (mountLO (utf16 ''m'')) = Inr (Some LoadingView) \<and>
   showSuggestions
     (stepLO sample_js (mountLO (utf16 ''m'')) (Change (utf16 ''ma'') :: suggestion event)) \<and>
   \<not> showSuggestions
       (stepLO sample_js (mountLO (utf16 ''m'')) (MouseDown False :: suggestion event))"
proof -
  let ?s = "run sample_js xyz_events (initial [])"
  let ?t = "mountLO (utf16 ''m'')"
  note v = visibility_flag [where js = sample_js and evs = emptied_events and query = "[]"
      and s = ?s and ?e3.0 = "Change [] :: suggestion event" and ?evs1.0 = first_key_events
      and ?query1.0 = "[]" and ?e1.0 = "Settle (utf16 ''m'') users" and t = ?t
      and ?e2.0 = "Change (utf16 ''ma'') :: suggestion event" and sg = margo
      and v = NoMatchView and w = LoadingView]
  have 1: "inputValue (runLO sample_js emptied_events (mountLO [])) = []"
    by (simp add: runLO_emptied_events)
  have 2: "(inputValue ?s = [] \<longrightarrow> \<not> showSuggestions ?s) \<and>
      \<not> (\<exists>q r. (Change [] :: suggestion event) = Settle q r \<and> inputValue ?s = [])"
    by (simp add: run_xyz_events utf16_def)
  have 4: "renderSuggestions sample_js ?s = Inr (Some NoMatchView)" "inputValue ?s \<noteq> []"
    by (simp_all add: run_xyz_events renderSuggestions_def renderList_def truthy_def utf16_def)
  have 3: "inputValue (step sample_js ?s (Change [] :: suggestion event)) = []"
    by (simp add: step_def 4) (simp add: run_xyz_events handleChange_def utf16_def)
  have 5: "\<not> showSuggestions (run sample_js first_key_events (initial []))"
    "showSuggestions (step sample_js (run sample_js first_key_events (initial []))
       (Settle (utf16 ''m'') users))"
    by (simp_all add: run_first_key_events step_def renderSuggestions_def
        fetchFilteredSuggestions_settle_def fetchFilteredSuggestions_try_def users_def ok_def)
  have 6: "\<not> showSuggestions ?t" "renderSuggestionsLO sample_js ?t = Inr (Some LoadingView)"
    by (simp_all add: mountLO_def initialLO_def fetchAllSuggestions_start_def
        renderSuggestionsLO_def utf16_def)
  have 7: "showSuggestions (stepLO sample_js ?t (Change (utf16 ''ma'') :: suggestion event))"
    by (simp add: stepLO_def 6) (simp add: handleChangeLO_def utf16_def)
  from v 1 have a: "\<not> showSuggestions (runLO sample_js emptied_events (mountLO []))" by blast
  from v 2 3 have b: "\<not> showSuggestions (step sample_js ?s (Change [] :: suggestion event))"
    by blast
  from v 4 have c: "\<not> showSuggestions (step sample_js ?s (MouseDown False :: suggestion event))"
    by blast
  from v 6 have d: "\<not> showSuggestions (stepLO sample_js ?t (MouseDown False :: suggestion event))"
    by blast
  from 1 a 4 b c 5 6 7 d show ?thesis by (intro conjI)
qed

text \<open>
  C10. Enter with a highlighted index of at least 0 passes the element of the candidate
  set at the index to \<^verbatim>\<open>handleClick\<close>. The element is there when the index is below the
  length of the candidate set; when the index is the length or more, there is none and
  \<^verbatim>\<open>handleClick\<close> throws on reading its name. Such a state is reachable: in the preload
  hook, with the index 1 left over from a list of two and a candidate set of one.
\<close>

theorem enter_reads_out_of_range:
  "(0 \<le> highlightedIndex s \<longrightarrow>
      handleKeyDown (utf16 ''Enter'') s =
        handleClick (js_index (filteredSuggestions s) (highlightedIndex s)) s) \<and>
   (0 \<le> highlightedIndex s \<and> highlightedIndex s < int (length (filteredSuggestions s)) \<longrightarrow>
      js_index (filteredSuggestions s) (highlightedIndex s) =
        Some (filteredSuggestions s ! nat (highlightedIndex s))) \<and>
   (int (length (filteredSuggestions s)) \<le> highlightedIndex s \<longrightarrow>
      js_index (filteredSuggestions s) (highlightedIndex s) = None \<and>
      handleKeyDown (utf16 ''Enter'') s = Inl TypeError)"
  by (auto simp: handleKeyDown_def js_index_def handleClick_def utf16_def)

theorem enter_reads_out_of_range_witness:
  "0 \<le> highlightedIndex (runLO sample_js preload_stale_events (mountLO [])) \<and>
   int (length (filteredSuggestions (runLO sample_js preload_stale_events (mountLO [])))) \<le>
     highlightedIndex (runLO sample_js preload_stale_events (mountLO [])) \<and>
   handleKeyDown (utf16 ''Enter'') (runLO sample_js preload_stale_events (mountLO [])) =
     Inl TypeError"
proof -
  have h: "int (length (filteredSuggestions (runLO sample_js preload_stale_events (mountLO [])))) \<le>
     highlightedIndex (runLO sample_js preload_stale_events (mountLO []))"
    by (simp add: runLO_preload_stale_events)
  have "0 \<le> highlightedIndex (runLO sample_js preload_stale_events (mountLO []))"
    by (simp add: runLO_preload_stale_events)
  with h enter_reads_out_of_range [of "runLO sample_js preload_stale_events (mountLO [])"]
  show ?thesis by blast
qed

end
